theory Spec2Isabelle
  imports Complex_Main "HOL-Library.Sublist"
begin

section \<open>Data model of \<open>app.py\<close>\<close>

text \<open>
  The service in \<open>src/app.py\<close> consists of worker processes (\<open>ModelWorker\<close>) that batch
  requests and of the Flask handler \<open>classify\<close> that submits a request and polls for its
  response. Both sides communicate through two process-shared queues.

  Conventions of the embedding:
  \<^item> \<open>time.time()\<close> returns a float; a clock reading is the \<open>real\<close> number the float
    denotes, and every clock reading is an explicit argument of the function that takes
    it. The product of line 166 is rounded to binary64 as the float multiplication
    rounds it. Differences of clock readings and their comparisons with \<open>0.1\<close> and \<open>30\<close>
    are taken exactly.
  \<^item> What a \<open>Queue.get(timeout=...)\<close> call delivers is an argument of type \<open>option\<close>:
    \<open>None\<close> stands for the \<open>queue.Empty\<close> exception raised when the timeout expires.
    What the code puts on a queue is returned as a list, in the order of the \<open>put\<close> calls.
  \<^item> A Python exception is a value \<open>Inl msg\<close>, where \<open>msg\<close> is \<open>str(e)\<close>.
\<close>

text \<open>The dictionary built at lines 169-172: \<open>{'request_id': ..., 'sentence': ...}\<close>.\<close>

record request =
  request_id :: int
  sentence :: string

text \<open>
  The two shapes of dictionary a worker puts on the response queue: a prediction
  (lines 94-99, keys \<open>request_id\<close>, \<open>class\<close>, \<open>confidence\<close>, \<open>worker_id\<close>) and an error
  (lines 135-139, keys \<open>request_id\<close>, \<open>error\<close>, \<open>worker_id\<close>). The test
  \<open>'error' in result\<close> of line 183 is the case distinction on the constructor.
\<close>

datatype response =
  Result int int real int
  | Error int string int

fun resp_request_id :: "response \<Rightarrow> int" where
  "resp_request_id (Result rid c conf wid) = rid"
| "resp_request_id (Error rid msg wid) = rid"

fun resp_worker_id :: "response \<Rightarrow> int" where
  "resp_worker_id (Result rid c conf wid) = wid"
| "resp_worker_id (Error rid msg wid) = wid"

fun is_error :: "response \<Rightarrow> bool" where
  "is_error (Result rid c conf wid) = False"
| "is_error (Error rid msg wid) = True"

section \<open>The worker: \<open>ModelWorker.predict\<close>\<close>

text \<open>
  The tokenizer, the BERT model and \<open>torch.softmax\<close> (lines 72-87) are external. They are a
  parameter of the model: a function from the list of sentences to either the exception
  it raises or the rows of \<open>predictions\<close>, one list of class probabilities per row.
\<close>

type_synonym predictor = "string list \<Rightarrow> string + real list list"

text \<open>
  \<open>torch.argmax(pred).item()\<close> (line 92): the index of the first maximal entry; on an
  empty row torch raises.
\<close>

fun index_of :: "real \<Rightarrow> real list \<Rightarrow> nat" where
  "index_of m [] = 0"
| "index_of m (x # xs) = (if x = m then 0 else Suc (index_of m xs))"

definition argmax :: "real list \<Rightarrow> string + nat" where
  "argmax pred =
     (case pred of
        [] \<Rightarrow> Inl ''argmax(): Expected reduction dim to be specified for input.numel() == 0''
      | x # xs \<Rightarrow> Inr (index_of (fold max xs x) pred))"

text \<open>
  The loop of lines 90-99 over \<open>enumerate(predictions)\<close>. \<open>request_ids[i]\<close> raises
  \<open>IndexError\<close> when there are more rows than ids; the exception leaves \<open>predict\<close> before
  anything is returned.
\<close>

fun build_results :: "int \<Rightarrow> int list \<Rightarrow> nat \<Rightarrow> real list list \<Rightarrow> string + response list" where
  "build_results wid request_ids i [] = Inr []"
| "build_results wid request_ids i (pred # preds) =
     (case argmax pred of
        Inl e \<Rightarrow> Inl e
      | Inr predicted_class \<Rightarrow>
          (if i < length request_ids then
             (case build_results wid request_ids (Suc i) preds of
                Inl e \<Rightarrow> Inl e
              | Inr results \<Rightarrow>
                  Inr (Result (request_ids ! i) (int predicted_class) (pred ! predicted_class) wid
                       # results))
           else Inl ''list index out of range''))"

text \<open>
  The arguments of \<open>predict\<close>: a single string with its id (normalised to one-element
  lists at lines 67-69), or a list of sentences with the list of their ids.
\<close>

datatype predict_input =
  Single string int
  | Batch "string list" "int list"

fun normalise :: "predict_input \<Rightarrow> string list \<times> int list" where
  "normalise (Single s rid) = ([s], [rid])"
| "normalise (Batch sentences request_ids) = (sentences, request_ids)"

definition predict :: "predictor \<Rightarrow> int \<Rightarrow> predict_input \<Rightarrow> string + response list" where
  "predict model wid inp =
     (case normalise inp of
        (sentences, request_ids) \<Rightarrow>
          (case model sentences of
             Inl e \<Rightarrow> Inl e
           | Inr predictions \<Rightarrow> build_results wid request_ids 0 predictions))"

section \<open>The worker: the batching loop \<open>ModelWorker.run\<close>\<close>

text \<open>The local variables of \<open>run\<close> (lines 106-108).\<close>

record worker_state =
  batch :: "string list"
  batch_ids :: "int list"
  last_process_time :: real

definition init_worker :: "real \<Rightarrow> worker_state" where
  "init_worker t0 = \<lparr>batch = [], batch_ids = [], last_process_time = t0\<rparr>"

text \<open>
  Lines 113-118: the request delivered by \<open>request_queue.get(timeout=0.01)\<close> is appended
  to both lists; \<open>queue.Empty\<close> is swallowed.
\<close>

definition take_request :: "request option \<Rightarrow> worker_state \<Rightarrow> worker_state" where
  "take_request got w =
     (case got of
        None \<Rightarrow> w
      | Some req \<Rightarrow> w\<lparr>batch := batch w @ [sentence req],
                       batch_ids := batch_ids w @ [request_id req]\<rparr>)"

text \<open>The condition of line 122.\<close>

definition flush_due :: "real \<Rightarrow> worker_state \<Rightarrow> bool" where
  "flush_due current_time w =
     (length (batch w) \<ge> 32 \<or> (batch w \<noteq> [] \<and> current_time - last_process_time w > 1 / 10))"

text \<open>
  One iteration of the \<open>while True\<close> loop (lines 111-141). It returns the new local
  variables and the responses put on the response queue. \<open>got\<close> is what the queue
  delivered, \<open>current_time\<close> the clock reading of line 121.
\<close>

definition run_iteration ::
  "predictor \<Rightarrow> int \<Rightarrow> request option \<Rightarrow> real \<Rightarrow> worker_state \<Rightarrow> worker_state \<times> response list" where
  "run_iteration model wid got current_time w =
     (let w1 = take_request got w in
      if flush_due current_time w1 then
        (if batch w1 \<noteq> [] then
           (case predict model wid (Batch (batch w1) (batch_ids w1)) of
              Inr results \<Rightarrow>
                (w1\<lparr>batch := [], batch_ids := [], last_process_time := current_time\<rparr>, results)
            | Inl e \<Rightarrow>
                (w1\<lparr>batch := [], batch_ids := []\<rparr>,
                 map (\<lambda>rid. Error rid e wid) (batch_ids w1)))
         else (w1, []))
      else (w1, []))"

text \<open>
  A finite prefix of the loop: the iterations driven by the list of what each
  \<open>get\<close> delivered and what each clock reading was. The result is the state at the
  start of the next iteration and everything put on the response queue so far.
\<close>

fun run_iterations ::
  "predictor \<Rightarrow> int \<Rightarrow> (request option \<times> real) list \<Rightarrow> worker_state \<Rightarrow> worker_state \<times> response list" where
  "run_iterations model wid [] w = (w, [])"
| "run_iterations model wid ((got, t) # ins) w =
     (case run_iteration model wid got t w of
        (w', out) \<Rightarrow>
          (case run_iterations model wid ins w' of
             (w'', out') \<Rightarrow> (w'', out @ out')))"

text \<open>
  The loop itself, on an infinite supply of deliveries and clock readings (\<open>env n\<close> for
  iteration \<open>n\<close>). A value \<open>Some ()\<close> would be \<open>run\<close> returning; \<open>None\<close> is the loop
  running forever.
\<close>

partial_function (option) run_from ::
  "predictor \<Rightarrow> int \<Rightarrow> (nat \<Rightarrow> request option \<times> real) \<Rightarrow> nat \<Rightarrow> worker_state \<Rightarrow> unit option" where
  "run_from model wid env n w =
     run_from model wid env (Suc n) (fst (run_iteration model wid (fst (env n)) (snd (env n)) w))"

definition run :: "predictor \<Rightarrow> int \<Rightarrow> real \<Rightarrow> (nat \<Rightarrow> request option \<times> real) \<Rightarrow> unit option" where
  "run model wid t0 env = run_from model wid env 0 (init_worker t0)"

section \<open>The dispatcher: the Flask handler \<open>classify\<close>\<close>

text \<open>
  The product of two floats is the exact product rounded to the nearest binary64 value,
  ties to the even significand. \<open>binade x\<close> is the exponent \<open>e\<close> with
  \<open>2 ^ e \<le> x < 2 ^ (e + 1)\<close> for \<open>x > 0\<close>; a binary64 value in this range is a multiple
  of \<open>2 ^ (e - 52)\<close>, and of \<open>2 ^ -1074\<close> below the normal range. The exponent is not
  bounded above: a clock reading times \<open>1000000\<close> is far from the overflow threshold.
\<close>

fun floor_log2 :: "nat \<Rightarrow> nat" where
  "floor_log2 n = (if n < 2 then 0 else Suc (floor_log2 (n div 2)))"

declare floor_log2.simps [simp del]

definition binade :: "real \<Rightarrow> int" where
  "binade x =
     (if 1 \<le> x then int (floor_log2 (nat \<lfloor>x\<rfloor>))
      else - int (Suc (floor_log2 (nat (\<lceil>1 / x\<rceil> - 1)))))"

definition pow2 :: "int \<Rightarrow> real" where
  "pow2 e = (if 0 \<le> e then 2 ^ nat e else 1 / 2 ^ nat (- e))"

definition round_half_even :: "real \<Rightarrow> int" where
  "round_half_even y =
     (let f = \<lfloor>y\<rfloor>; d = y - of_int f in
      if d < 1 / 2 then f else if d > 1 / 2 then f + 1 else if even f then f else f + 1)"

definition round_binary64 :: "real \<Rightarrow> real" where
  "round_binary64 x =
     (if x = 0 then 0
      else (let u = pow2 (max (binade \<bar>x\<bar>) (- 1022) - 52)
            in sgn x * (u * of_int (round_half_even (\<bar>x\<bar> / u)))))"

text \<open>
  \<open>int(x)\<close> on a float truncates towards zero; line 166 computes
  \<open>int(time.time() * 1000000)\<close>, where the product is a float product.
\<close>

definition py_int :: "real \<Rightarrow> int" where
  "py_int x = (if x \<ge> 0 then \<lfloor>x\<rfloor> else \<lceil>x\<rceil>)"

definition new_request_id :: "real \<Rightarrow> int" where
  "new_request_id t = py_int (round_binary64 (t * 1000000))"

text \<open>\<open>round(x, ndigits)\<close>: to the nearest multiple of \<open>10 ^ -ndigits\<close>, ties to even.\<close>

definition py_round :: "real \<Rightarrow> nat \<Rightarrow> real" where
  "py_round x ndigits =
     (let y = x * 10 ^ ndigits; f = \<lfloor>y\<rfloor>; d = y - of_int f in
      of_int (if d < 1 / 2 then f else if d > 1 / 2 then f + 1 else if even f then f else f + 1)
        / 10 ^ ndigits)"

text \<open>Lines 187-188: the dictionary \<open>class_mapping\<close> and \<open>class_mapping.get(c, 'none')\<close>.\<close>

definition class_mapping :: "int \<rightharpoonup> string" where
  "class_mapping = [0 \<mapsto> ''none'', 1 \<mapsto> ''product'', 2 \<mapsto> ''series'']"

definition predicted_label :: "int \<Rightarrow> string" where
  "predicted_label c = (case class_mapping c of None \<Rightarrow> ''none'' | Some label \<Rightarrow> label)"

text \<open>
  What the handler returns: the \<open>jsonify\<close> body and the HTTP status. A success body has
  the keys \<open>class\<close>, \<open>sentence\<close>, \<open>confidence\<close>, \<open>processing_time\<close>, \<open>worker_id\<close>; an error
  body has the key \<open>error\<close>. Status 200 is Flask's default for line 190.
\<close>

datatype json_body =
  ClassBody string string real real int
  | ErrorBody string

type_synonym http_reply = "json_body \<times> nat"

text \<open>The local variables of \<open>classify\<close> that the polling loop reads.\<close>

record classify_locals =
  start_time :: real
  request_data :: request

text \<open>
  Lines 165-175, with the two clock readings of lines 165 and 166 as arguments: the
  local variables and the request put on the request queue.
\<close>

definition classify_submit :: "string \<Rightarrow> real \<Rightarrow> real \<Rightarrow> classify_locals \<times> request" where
  "classify_submit s t_start t_id =
     (let rd = \<lparr>request_id = new_request_id t_id, sentence = s\<rparr>
      in (\<lparr>start_time = t_start, request_data = rd\<rparr>, rd))"

text \<open>
  The inputs of one iteration of the loop of lines 179-201: the clock reading of the
  loop condition, what \<open>response_queue.get(timeout=0.1)\<close> delivers if it is called, and
  the clock reading of line 194.
\<close>

record poll =
  poll_time :: real
  delivered :: "response option"
  reply_time :: real

datatype poll_outcome = Continue | Return http_reply

text \<open>
  One iteration of the loop, or the exit at line 203 when the loop condition fails. The
  second component lists the responses put back on the response queue (line 199).
\<close>

definition classify_poll :: "classify_locals \<Rightarrow> poll \<Rightarrow> poll_outcome \<times> response list" where
  "classify_poll d ev =
     (if poll_time ev - start_time d < 30 then
        (case delivered ev of
           None \<Rightarrow> (Continue, [])
         | Some result \<Rightarrow>
             (if resp_request_id result = request_id (request_data d) then
                (case result of
                   Error rid msg wid \<Rightarrow> (Return (ErrorBody msg, 500), [])
                 | Result rid c conf wid \<Rightarrow>
                     (Return (ClassBody (predicted_label c) (sentence (request_data d)) conf
                                (py_round (reply_time ev - start_time d) 4) wid, 200), []))
              else (Continue, [result])))
      else (Return (ErrorBody ''Request timeout'', 408), []))"

text \<open>
  The loop on a finite list of inputs. \<open>None\<close>: the inputs are used up and the handler
  is still polling. \<open>Some (reply, puts)\<close>: the handler returned \<open>reply\<close>, having put
  \<open>puts\<close> back on the response queue.
\<close>

fun classify_loop :: "classify_locals \<Rightarrow> poll list \<Rightarrow> (http_reply \<times> response list) option" where
  "classify_loop d [] = None"
| "classify_loop d (ev # evs) =
     (case classify_poll d ev of
        (Return reply, puts) \<Rightarrow> Some (reply, puts)
      | (Continue, puts) \<Rightarrow>
          (case classify_loop d evs of
             None \<Rightarrow> None
           | Some (reply, puts') \<Rightarrow> Some (reply, puts @ puts')))"

definition classify ::
  "string \<Rightarrow> real \<Rightarrow> real \<Rightarrow> poll list \<Rightarrow> request \<times> (http_reply \<times> response list) option" where
  "classify s t_start t_id evs =
     (case classify_submit s t_start t_id of (d, rd) \<Rightarrow> (rd, classify_loop d evs))"

section \<open>The route of \<open>classify\<close>\<close>

text \<open>
  Line 162 registers \<open>classify\<close> under the rule \<open>/bert/classify/<string:sentence>\<close> for
  \<open>GET\<close>. The rule is a fixed prefix followed by one variable with the \<open>string\<close>
  converter, which accepts any non-empty text without a slash. \<open>route_classify\<close> is the
  match of the (URL-decoded) path of a \<open>GET\<close> request against this rule: the value bound
  to \<open>sentence\<close>, or \<open>None\<close> when the rule does not match.
\<close>

definition classify_rule_prefix :: string where
  "classify_rule_prefix = ''/bert/classify/''"

fun strip_prefix :: "string \<Rightarrow> string \<Rightarrow> string option" where
  "strip_prefix [] s = Some s"
| "strip_prefix (p # ps) [] = None"
| "strip_prefix (p # ps) (c # cs) = (if p = c then strip_prefix ps cs else None)"

definition string_converter :: "string \<Rightarrow> string option" where
  "string_converter seg = (if seg \<noteq> [] \<and> CHR ''/'' \<notin> set seg then Some seg else None)"

definition route_classify :: "string \<Rightarrow> string option" where
  "route_classify path =
     (case strip_prefix classify_rule_prefix path of
        None \<Rightarrow> None
      | Some seg \<Rightarrow> string_converter seg)"

section \<open>The shared state and the processes on it\<close>

text \<open>The module-level shared objects of lines 151-154.\<close>

record sys =
  request_queue :: "request list"
  response_queue :: "response list"
  worker_counter :: int

text \<open>
  Lines 156-160. \<open>%\<close> with a positive modulus is non-negative in Python, as \<open>mod\<close> on
  \<open>int\<close>; the result is within the range of \<open>c_int\<close>.
\<close>

definition get_next_worker :: "sys \<Rightarrow> int \<times> sys" where
  "get_next_worker s =
     (let s' = s\<lparr>worker_counter := (worker_counter s + 1) mod 4\<rparr>
      in (worker_counter s', s'))"

text \<open>
  The system as interleaved atomic steps. A configuration holds the shared state, the
  request handlers (Flask runs \<open>classify\<close> once per request) and the worker processes
  started by \<open>start_server\<close>. The steps are: a handler submits (lines 165-175), a
  handler runs one iteration of its polling loop, a worker runs one iteration of its
  batching loop. No code of \<open>app.py\<close> calls \<open>get_next_worker\<close>, so no step does.
\<close>

datatype handler_status = Polling classify_locals | Finished http_reply

record config =
  shared :: sys
  handlers :: "nat \<Rightarrow> handler_status option"
  workers :: "nat \<Rightarrow> worker_state"

datatype action =
  Submit nat string real real
  | Poll nat real real
  | Work nat real

definition queue_get :: "'a list \<Rightarrow> 'a option \<times> 'a list" where
  "queue_get q = (case q of [] \<Rightarrow> (None, []) | x # xs \<Rightarrow> (Some x, xs))"

fun exec :: "predictor \<Rightarrow> action \<Rightarrow> config \<Rightarrow> config" where
  "exec model (Submit i s t_start t_id) c =
     (case handlers c i of
        Some h \<Rightarrow> c
      | None \<Rightarrow>
          (case classify_submit s t_start t_id of
             (d, rd) \<Rightarrow>
               c\<lparr>shared := (shared c)\<lparr>request_queue := request_queue (shared c) @ [rd]\<rparr>,
                 handlers := (handlers c)(i := Some (Polling d))\<rparr>))"
| "exec model (Poll i now t_end) c =
     (case handlers c i of
        Some (Polling d) \<Rightarrow>
          (case (if now - start_time d < 30 then queue_get (response_queue (shared c))
                 else (None, response_queue (shared c))) of
             (got, rest) \<Rightarrow>
               (case classify_poll d \<lparr>poll_time = now, delivered = got, reply_time = t_end\<rparr> of
                  (outcome, puts) \<Rightarrow>
                    c\<lparr>shared := (shared c)\<lparr>response_queue := rest @ puts\<rparr>,
                      handlers := (handlers c)
                        (i := Some (case outcome of Continue \<Rightarrow> Polling d
                                    | Return reply \<Rightarrow> Finished reply))\<rparr>))
      | _ \<Rightarrow> c)"
| "exec model (Work j now) c =
     (case queue_get (request_queue (shared c)) of
        (got, rest) \<Rightarrow>
          (case run_iteration model (int j) got now (workers c j) of
             (w', out) \<Rightarrow>
               c\<lparr>shared := (shared c)\<lparr>request_queue := rest,
                                       response_queue := response_queue (shared c) @ out\<rparr>,
                 workers := (workers c)(j := w')\<rparr>))"

fun run_schedule :: "predictor \<Rightarrow> action list \<Rightarrow> config \<Rightarrow> config" where
  "run_schedule model [] c = c"
| "run_schedule model (a # as) c = run_schedule model as (exec model a c)"

definition init_config :: "real \<Rightarrow> config" where
  "init_config t0 =
     \<lparr>shared = \<lparr>request_queue = [], response_queue = [], worker_counter = 0\<rparr>,
      handlers = (\<lambda>i. None),
      workers = (\<lambda>j. init_worker t0)\<rparr>"

section \<open>Auxiliary notions for the statements\<close>

text \<open>
  Trace projections used to state the properties: the requests a list of loop inputs
  delivered, in order, and the relation between the local variables and the list of
  requests they were built from.
\<close>

fun dequeued :: "(request option \<times> real) list \<Rightarrow> request list" where
  "dequeued [] = []"
| "dequeued ((None, t) # ins) = dequeued ins"
| "dequeued ((Some req, t) # ins) = req # dequeued ins"

definition holds_requests :: "worker_state \<Rightarrow> request list \<Rightarrow> bool" where
  "holds_requests w reqs = (batch w = map sentence reqs \<and> batch_ids w = map request_id reqs)"

text \<open>
  The clock reading of the iteration in which the first member of the current batch was
  appended (\<open>None\<close> while the batch is empty), computed along the loop. The code keeps
  no such value; it is defined here to state how long a batch is held.
\<close>

fun pending_since ::
  "predictor \<Rightarrow> int \<Rightarrow> (request option \<times> real) list \<Rightarrow> worker_state \<Rightarrow> real option \<Rightarrow> real option" where
  "pending_since model wid [] w a = a"
| "pending_since model wid ((got, t) # ins) w a =
     pending_since model wid ins (fst (run_iteration model wid got t w))
       (if flush_due t (take_request got w) then None
        else if batch w = [] \<and> got \<noteq> None then Some t
        else a)"

text \<open>
  The flush rule in the words of the specification: the size has reached 32, or more
  than 100ms have elapsed since the first unflushed member arrived.
\<close>

definition spec_flush_due :: "nat \<Rightarrow> real \<Rightarrow> real \<Rightarrow> bool" where
  "spec_flush_due n now first_arrival = (n \<ge> 32 \<or> now - first_arrival > 1 / 10)"

text \<open>The route in the words of the specification: \<open>GET /classify/<sentence>\<close>.\<close>

definition spec_route_classify :: "string \<Rightarrow> string option" where
  "spec_route_classify path =
     (case strip_prefix ''/classify/'' path of
        None \<Rightarrow> None
      | Some seg \<Rightarrow> string_converter seg)"

text \<open>
  The reply that lines 183-196 build from a response with the handler's own id, named
  to state the properties of the polling loop; \<open>t_end\<close> is the clock reading of line 194.
\<close>

definition reply_to :: "classify_locals \<Rightarrow> response \<Rightarrow> real \<Rightarrow> http_reply" where
  "reply_to d result t_end =
     (case result of
        Error rid msg wid \<Rightarrow> (ErrorBody msg, 500)
      | Result rid c conf wid \<Rightarrow>
          (ClassBody (predicted_label c) (sentence (request_data d)) conf
             (py_round (t_end - start_time d) 4) wid, 200))"

text \<open>Concrete inputs for the examples.\<close>

definition example_model :: predictor where
  "example_model sentences = Inr (map (\<lambda>s. [1 / 5, 7 / 10, 1 / 10]) sentences)"

definition failing_model :: predictor where
  "failing_model sentences = Inl ''out of memory''"

definition hello :: request where
  "hello = \<lparr>request_id = 7, sentence = ''Hello''\<rparr>"

section \<open>Properties of the worker\<close>

lemma run_from_Some_False:
  assumes "run_from model wid env n w = Some u" shows False
  using assms
proof (induction rule: run_from.raw_induct)
  case (1 f model wid env n w u)
  from "1.prems" have "run_from model wid env (Suc n)
          (fst (run_iteration model wid (fst (env n)) (snd (env n)) w)) = Some u"
    by (subst (asm) run_from.simps)
  with "1.IH" "1.hyps" show ?case by blast
qed (rule assms)

lemma run_from_never_returns: "run_from model wid env n w = None"
  using run_from_Some_False by (cases "run_from model wid env n w") auto

lemma run_never_returns: "run model wid t0 env = None"
  by (simp add: run_def run_from_never_returns)

lemma argmax_nonempty: "pred \<noteq> [] \<Longrightarrow> \<exists>c. argmax pred = Inr c"
  by (cases pred) (simp_all add: argmax_def)

lemma build_results_ok:
  assumes "i + length preds \<le> length ids" and "\<forall>p\<in>set preds. p \<noteq> []"
  shows "\<exists>rs. build_results wid ids i preds = Inr rs
           \<and> map resp_request_id rs = take (length preds) (drop i ids)
           \<and> (\<forall>r\<in>set rs. resp_worker_id r = wid \<and> \<not> is_error r)"
  using assms
proof (induction preds arbitrary: i)
  case Nil
  then show ?case by simp
next
  case (Cons p preds)
  from Cons.prems obtain c where c: "argmax p = Inr c"
    using argmax_nonempty by fastforce
  from Cons.prems have i: "i < length ids" by simp
  from Cons.prems have "Suc i + length preds \<le> length ids" "\<forall>p\<in>set preds. p \<noteq> []"
    by simp_all
  from Cons.IH[OF this] obtain rs where rs: "build_results wid ids (Suc i) preds = Inr rs"
    "map resp_request_id rs = take (length preds) (drop (Suc i) ids)"
    "\<forall>r\<in>set rs. resp_worker_id r = wid \<and> \<not> is_error r" by blast
  have "take (Suc (length preds)) (drop i ids) = ids ! i # take (length preds) (drop (Suc i) ids)"
    using i by (simp add: Cons_nth_drop_Suc[symmetric])
  with c i rs show ?case by simp
qed

lemma take_request_holds:
  "holds_requests w reqs \<Longrightarrow>
   holds_requests (take_request got w) (reqs @ (case got of None \<Rightarrow> [] | Some r \<Rightarrow> [r]))"
  by (cases got) (simp_all add: holds_requests_def take_request_def)

lemma take_request_last_process_time [simp]:
  "last_process_time (take_request got w) = last_process_time w"
  by (cases got) (simp_all add: take_request_def)

lemma run_iteration_cases:
  "run_iteration model wid got t w =
     (if flush_due t (take_request got w) then
        (case predict model wid (Batch (batch (take_request got w)) (batch_ids (take_request got w))) of
           Inr results \<Rightarrow> (\<lparr>batch = [], batch_ids = [], last_process_time = t\<rparr>, results)
         | Inl e \<Rightarrow> (\<lparr>batch = [], batch_ids = [], last_process_time = last_process_time w\<rparr>,
                     map (\<lambda>rid. Error rid e wid) (batch_ids (take_request got w))))
      else (take_request got w, []))"
  by (auto simp add: run_iteration_def Let_def flush_due_def split: sum.splits)

lemma run_iteration_holds:
  assumes "holds_requests w reqs" and "length reqs < 32"
  shows "\<exists>reqs'. suffix reqs' (reqs @ (case got of None \<Rightarrow> [] | Some r \<Rightarrow> [r]))
           \<and> holds_requests (fst (run_iteration model wid got t w)) reqs' \<and> length reqs' < 32"
proof (cases "flush_due t (take_request got w)")
  case True
  then have "holds_requests (fst (run_iteration model wid got t w)) []"
    by (simp add: run_iteration_cases holds_requests_def split: sum.splits)
  then show ?thesis by (intro exI[of _ "[]"]) simp
next
  case False
  let ?reqs = "reqs @ (case got of None \<Rightarrow> [] | Some r \<Rightarrow> [r])"
  have h: "holds_requests (take_request got w) ?reqs"
    using assms(1) by (rule take_request_holds)
  with False have "length ?reqs < 32"
    by (simp add: flush_due_def holds_requests_def)
  with h False show ?thesis
    by (intro exI[of _ ?reqs]) (simp add: run_iteration_cases)
qed

lemma dequeued_Cons: "dequeued ((got, t) # ins) = (case got of None \<Rightarrow> [] | Some r \<Rightarrow> [r]) @ dequeued ins"
  by (cases got) simp_all

lemma run_iterations_holds:
  assumes "holds_requests w reqs" and "length reqs < 32"
  shows "\<exists>reqs'. suffix reqs' (reqs @ dequeued ins)
           \<and> holds_requests (fst (run_iterations model wid ins w)) reqs' \<and> length reqs' < 32"
  using assms
proof (induction ins arbitrary: w reqs)
  case Nil
  then show ?case by (intro exI[of _ reqs]) simp
next
  case (Cons a ins)
  obtain got t where a: "a = (got, t)" by (cases a)
  let ?g = "case got of None \<Rightarrow> [] | Some r \<Rightarrow> [r]"
  from run_iteration_holds[OF Cons.prems, of got model wid t]
  obtain r1 where r1: "suffix r1 (reqs @ ?g)"
    "holds_requests (fst (run_iteration model wid got t w)) r1" "length r1 < 32" by blast
  from Cons.IH[OF r1(2,3)] obtain r2 where r2: "suffix r2 (r1 @ dequeued ins)"
    "holds_requests (fst (run_iterations model wid ins (fst (run_iteration model wid got t w)))) r2"
    "length r2 < 32" by blast
  from r1(1) have "suffix (r1 @ dequeued ins) (reqs @ dequeued (a # ins))"
    unfolding a dequeued_Cons by (auto simp: suffix_def)
  with r2(1) have "suffix r2 (reqs @ dequeued (a # ins))" by (rule suffix_order.trans)
  moreover have "fst (run_iterations model wid (a # ins) w)
      = fst (run_iterations model wid ins (fst (run_iteration model wid got t w)))"
    unfolding a by (simp split: prod.splits)
  ultimately show ?case using r2(2,3) by auto
qed

lemma reachable_holds:
  "\<exists>reqs. suffix reqs (dequeued ins)
      \<and> holds_requests (fst (run_iterations model wid ins (init_worker t0))) reqs \<and> length reqs < 32"
  using run_iterations_holds[of "init_worker t0" "[]" ins model wid]
  by (simp add: holds_requests_def init_worker_def)

lemma dequeued_append: "dequeued (ins @ ins') = dequeued ins @ dequeued ins'"
  by (induction ins rule: dequeued.induct) simp_all

lemma run_iterations_append:
  "run_iterations model wid (ins @ ins') w =
     (case run_iterations model wid ins w of
        (w', out) \<Rightarrow> (case run_iterations model wid ins' w' of (w'', out') \<Rightarrow> (w'', out @ out')))"
  by (induction ins arbitrary: w) (auto split: prod.splits)

lemma run_iterations_snoc:
  "run_iterations model wid (ins @ [(got, t)]) w =
     (fst (run_iteration model wid got t (fst (run_iterations model wid ins w))),
      snd (run_iterations model wid ins w)
        @ snd (run_iteration model wid got t (fst (run_iterations model wid ins w))))"
  by (simp add: run_iterations_append split: prod.splits)

lemma reachable_take_request:
  assumes "w = fst (run_iterations model wid ins (init_worker t0))"
  shows "\<exists>reqs. suffix reqs (dequeued (ins @ [(got, t)]))
           \<and> holds_requests (take_request got w) reqs \<and> length reqs \<le> 32"
proof -
  from reachable_holds[of ins model wid t0] assms obtain reqs where
    r: "suffix reqs (dequeued ins)" "holds_requests w reqs" "length reqs < 32" by blast
  let ?g = "case got of None \<Rightarrow> [] | Some r \<Rightarrow> [r]"
  have "dequeued (ins @ [(got, t)]) = dequeued ins @ ?g"
    by (cases got) (simp_all add: dequeued_append)
  with r(1) have "suffix (reqs @ ?g) (dequeued (ins @ [(got, t)]))" by (simp add: suffix_def)
  moreover have "holds_requests (take_request got w) (reqs @ ?g)"
    using r(2) by (rule take_request_holds)
  moreover have "length (reqs @ ?g) \<le> 32" using r(3) by (cases got) simp_all
  ultimately show ?thesis by blast
qed

text \<open>
  Claim C3. Let the worker be in any state its loop can reach, and let an iteration
  flush: the predictor returns one non-empty row per sentence of the batch. Then the
  batch holds the \<open>k\<close> most recently dequeued requests with \<open>1 \<le> k \<le> 32\<close>, \<open>predict\<close>
  returns exactly \<open>k\<close> responses, none an error, all tagged with the id of the worker, the
  \<open>i\<close>-th carrying the \<open>request_id\<close> of the \<open>i\<close>-th request, and the iteration appends
  them to the response queue in this order.
\<close>

theorem flush_emits_results_in_batch_order:
  assumes w: "w = fst (run_iterations model wid ins (init_worker t0))"
    and due: "flush_due t (take_request got w)"
    and ok: "model (batch (take_request got w)) = Inr predictions"
    and len: "length predictions = length (batch (take_request got w))"
    and rows: "\<forall>p\<in>set predictions. p \<noteq> []"
  shows "\<exists>reqs results.
           suffix reqs (dequeued (ins @ [(got, t)]))
         \<and> holds_requests (take_request got w) reqs
         \<and> 1 \<le> length reqs \<and> length reqs \<le> 32
         \<and> predict model wid (Batch (batch (take_request got w)) (batch_ids (take_request got w)))
             = Inr results
         \<and> run_iterations model wid (ins @ [(got, t)]) (init_worker t0)
             = (init_worker t, snd (run_iterations model wid ins (init_worker t0)) @ results)
         \<and> length results = length reqs
         \<and> map resp_request_id results = map request_id reqs
         \<and> (\<forall>r\<in>set results. resp_worker_id r = wid \<and> \<not> is_error r)"
proof -
  let ?w1 = "take_request got w"
  from reachable_take_request[OF w, of got t] obtain reqs where
    r: "suffix reqs (dequeued (ins @ [(got, t)]))" "holds_requests ?w1 reqs" "length reqs \<le> 32"
    by blast
  from r(2) have b: "batch ?w1 = map sentence reqs" and ids: "batch_ids ?w1 = map request_id reqs"
    by (simp_all add: holds_requests_def)
  from due b r(3) have ne: "1 \<le> length reqs"
    by (cases reqs) (simp_all add: flush_due_def)
  have "0 + length predictions \<le> length (batch_ids ?w1)" using len b ids by simp
  from build_results_ok[OF this rows, of wid] obtain results where
    res: "build_results wid (batch_ids ?w1) 0 predictions = Inr results"
    "map resp_request_id results = take (length predictions) (drop 0 (batch_ids ?w1))"
    "\<forall>r\<in>set results. resp_worker_id r = wid \<and> \<not> is_error r" by blast
  from res(2) len b ids have m: "map resp_request_id results = map request_id reqs" by simp
  then have l: "length results = length reqs" using length_map by metis
  have p: "predict model wid (Batch (batch ?w1) (batch_ids ?w1)) = Inr results"
    using ok res(1) by (simp add: predict_def)
  have "run_iteration model wid got t w = (init_worker t, results)"
    using due p by (simp add: run_iteration_cases init_worker_def)
  then have "run_iterations model wid (ins @ [(got, t)]) (init_worker t0)
      = (init_worker t, snd (run_iterations model wid ins (init_worker t0)) @ results)"
    using w by (simp add: run_iterations_snoc)
  with r(1,2) ne r(3) p l m res(3) show ?thesis by blast
qed

theorem flush_emits_results_in_batch_order_witness:
  "flush_due 1 (take_request (Some hello) (fst (run_iterations example_model 0 [] (init_worker 0))))
   \<and> (\<exists>reqs results.
           suffix reqs (dequeued ([] @ [(Some hello, 1)]))
         \<and> holds_requests (take_request (Some hello) (init_worker 0)) reqs
         \<and> 1 \<le> length reqs \<and> length reqs \<le> 32
         \<and> run_iterations example_model 0 ([] @ [(Some hello, 1)]) (init_worker 0)
             = (init_worker 1, results)
         \<and> map resp_request_id results = map request_id reqs)"
proof -
  let ?w = "fst (run_iterations example_model 0 [] (init_worker 0))"
  have w: "?w = fst (run_iterations example_model 0 [] (init_worker 0))" by simp
  have due: "flush_due 1 (take_request (Some hello) ?w)"
    by (simp add: flush_due_def take_request_def init_worker_def)
  have ok: "example_model (batch (take_request (Some hello) ?w)) = Inr [[1 / 5, 7 / 10, 1 / 10]]"
    by (simp add: example_model_def take_request_def init_worker_def)
  have len: "length [[1 / 5, 7 / 10, 1 / 10 :: real]] = length (batch (take_request (Some hello) ?w))"
    by (simp add: take_request_def init_worker_def)
  have rows: "\<forall>p\<in>set [[1 / 5, 7 / 10, 1 / 10 :: real]]. p \<noteq> []" by simp
  from flush_emits_results_in_batch_order[OF w due ok len rows] due
  show ?thesis by simp blast
qed

lemma run_iterations_append_proj:
  "run_iterations model wid (ins @ ins') w =
     (fst (run_iterations model wid ins' (fst (run_iterations model wid ins w))),
      snd (run_iterations model wid ins w)
        @ snd (run_iterations model wid ins' (fst (run_iterations model wid ins w))))"
  by (simp add: run_iterations_append split: prod.splits)

lemma run_iterations_Cons_proj:
  "run_iterations model wid ((got, t) # ins) w =
     (fst (run_iterations model wid ins (fst (run_iteration model wid got t w))),
      snd (run_iteration model wid got t w)
        @ snd (run_iterations model wid ins (fst (run_iteration model wid got t w))))"
  by (simp split: prod.splits)

text \<open>
  Claim C2. Let the worker be in any state its loop can reach, and let an iteration
  flush a batch of \<open>k\<close> requests for which the predictor raises with message \<open>e\<close>.
  Then the iteration puts exactly \<open>k\<close> error responses on the response queue, one per
  batch member in batch order, each with that member's \<open>request_id\<close>, the message \<open>e\<close>
  and the id of the worker. Both lists are emptied and \<open>last_process_time\<close> is kept, so
  the loop continues exactly as a worker with an empty batch would: the later output
  depends on the later inputs only (no retry). The loop does not return.
\<close>

theorem predictor_failure_emits_one_error_per_request:
  assumes w: "w = fst (run_iterations model wid ins (init_worker t0))"
    and due: "flush_due t (take_request got w)"
    and fails: "model (batch (take_request got w)) = Inl e"
  shows "\<exists>reqs.
           suffix reqs (dequeued (ins @ [(got, t)]))
         \<and> holds_requests (take_request got w) reqs
         \<and> 1 \<le> length reqs \<and> length reqs \<le> 32
         \<and> run_iteration model wid got t w
             = (init_worker (last_process_time w), map (\<lambda>r. Error (request_id r) e wid) reqs)
         \<and> run_iterations model wid (ins @ [(got, t)] @ ins') (init_worker t0)
             = (fst (run_iterations model wid ins' (init_worker (last_process_time w))),
                snd (run_iterations model wid ins (init_worker t0))
                  @ map (\<lambda>r. Error (request_id r) e wid) reqs
                  @ snd (run_iterations model wid ins' (init_worker (last_process_time w))))
         \<and> run_from model wid env n (fst (run_iteration model wid got t w)) = None"
proof -
  let ?w1 = "take_request got w"
  from reachable_take_request[OF w, of got t] obtain reqs where
    r: "suffix reqs (dequeued (ins @ [(got, t)]))" "holds_requests ?w1 reqs" "length reqs \<le> 32"
    by blast
  from r(2) have b: "batch ?w1 = map sentence reqs" and ids: "batch_ids ?w1 = map request_id reqs"
    by (simp_all add: holds_requests_def)
  from due b r(3) have ne: "1 \<le> length reqs"
    by (cases reqs) (simp_all add: flush_due_def)
  have p: "predict model wid (Batch (batch ?w1) (batch_ids ?w1)) = Inl e"
    using fails by (simp add: predict_def)
  have it: "run_iteration model wid got t w
      = (init_worker (last_process_time w), map (\<lambda>r. Error (request_id r) e wid) reqs)"
    using due p ids by (simp add: run_iteration_cases init_worker_def comp_def)
  have "run_iterations model wid (ins @ [(got, t)] @ ins') (init_worker t0)
      = (fst (run_iterations model wid ins' (init_worker (last_process_time w))),
         snd (run_iterations model wid ins (init_worker t0))
           @ map (\<lambda>r. Error (request_id r) e wid) reqs
           @ snd (run_iterations model wid ins' (init_worker (last_process_time w))))"
    using w it by (simp add: run_iterations_append_proj split: prod.splits)
  with r(1,2) ne r(3) it run_from_never_returns[of model wid env n] show ?thesis by blast
qed

theorem predictor_failure_emits_one_error_per_request_witness:
  "flush_due 1 (take_request (Some hello) (fst (run_iterations failing_model 0 [] (init_worker 0))))
   \<and> failing_model (batch (take_request (Some hello) (fst (run_iterations failing_model 0 [] (init_worker 0)))))
        = Inl ''out of memory''
   \<and> run_iteration failing_model 0 (Some hello) 1 (init_worker 0)
        = (init_worker 0, [Error 7 ''out of memory'' 0])"
proof -
  let ?w = "fst (run_iterations failing_model 0 [] (init_worker 0))"
  have w: "?w = fst (run_iterations failing_model 0 [] (init_worker 0))" by simp
  have due: "flush_due 1 (take_request (Some hello) ?w)"
    by (simp add: flush_due_def take_request_def init_worker_def)
  have fails: "failing_model (batch (take_request (Some hello) ?w)) = Inl ''out of memory''"
    by (simp add: failing_model_def)
  from predictor_failure_emits_one_error_per_request[OF w due fails, of "[]" "\<lambda>n. (None, 0)" 0]
  obtain reqs where r: "holds_requests (take_request (Some hello) ?w) reqs"
    "run_iteration failing_model 0 (Some hello) 1 ?w
       = (init_worker (last_process_time ?w), map (\<lambda>r. Error (request_id r) ''out of memory'' 0) reqs)"
    by blast
  from r(1) have "map request_id reqs = [7]"
    by (simp add: holds_requests_def take_request_def init_worker_def hello_def)
  then have "map (\<lambda>r. Error (request_id r) ''out of memory'' 0) reqs = [Error 7 ''out of memory'' 0]"
    by (auto simp: map_eq_Cons_conv)
  with r(2) due fails show ?thesis by (simp add: init_worker_def)
qed

text \<open>
  Claim C9. At the start of every iteration (in every state the loop can reach),
  \<open>batch\<close> and \<open>batch_ids\<close> have the same length and are the sentences and the ids of
  the same list of requests, the most recently dequeued ones; and whenever an iteration
  flushes, on the success path as on the error path, both lists are empty afterwards.
\<close>

theorem batch_and_ids_stay_aligned:
  assumes w: "w = fst (run_iterations model wid ins (init_worker t0))"
  shows "length (batch w) = length (batch_ids w)
       \<and> (\<exists>reqs. suffix reqs (dequeued ins) \<and> batch w = map sentence reqs
                 \<and> batch_ids w = map request_id reqs)
       \<and> (flush_due t (take_request got w) \<longrightarrow>
            batch (fst (run_iteration model wid got t w)) = []
          \<and> batch_ids (fst (run_iteration model wid got t w)) = [])"
proof -
  from reachable_holds[of ins model wid t0] w obtain reqs where
    r: "suffix reqs (dequeued ins)" "holds_requests w reqs" by blast
  from r(2) have b: "batch w = map sentence reqs" "batch_ids w = map request_id reqs"
    by (simp_all add: holds_requests_def)
  then have "length (batch w) = length (batch_ids w)" by simp
  moreover have "flush_due t (take_request got w) \<longrightarrow>
            batch (fst (run_iteration model wid got t w)) = []
          \<and> batch_ids (fst (run_iteration model wid got t w)) = []"
    by (simp add: run_iteration_cases split: sum.splits)
  ultimately show ?thesis using r(1) b by blast
qed

theorem batch_and_ids_stay_aligned_witness:
  "batch (fst (run_iterations example_model 0 [(Some hello, 0)] (init_worker 0))) = [''Hello'']
   \<and> batch_ids (fst (run_iterations example_model 0 [(Some hello, 0)] (init_worker 0))) = [7]
   \<and> flush_due 1 (take_request None (fst (run_iterations example_model 0 [(Some hello, 0)] (init_worker 0))))
   \<and> batch (fst (run_iteration example_model 0 None 1
        (fst (run_iterations example_model 0 [(Some hello, 0)] (init_worker 0))))) = []
   \<and> batch_ids (fst (run_iteration example_model 0 None 1
        (fst (run_iterations example_model 0 [(Some hello, 0)] (init_worker 0))))) = []"
proof -
  let ?w = "fst (run_iterations example_model 0 [(Some hello, 0)] (init_worker 0))"
  have w: "?w = fst (run_iterations example_model 0 [(Some hello, 0)] (init_worker 0))" by simp
  have v: "?w = \<lparr>batch = [''Hello''], batch_ids = [7], last_process_time = 0\<rparr>"
    by (simp add: run_iteration_cases flush_due_def take_request_def init_worker_def hello_def)
  have due: "flush_due 1 (take_request None ?w)"
    unfolding v by (simp add: flush_due_def take_request_def)
  from batch_and_ids_stay_aligned[OF w, of 1 None] due
  have "batch (fst (run_iteration example_model 0 None 1 ?w)) = []
      \<and> batch_ids (fst (run_iteration example_model 0 None 1 ?w)) = []" by blast
  moreover have "batch ?w = [''Hello'']" "batch_ids ?w = [7]" unfolding v by simp_all
  ultimately show ?thesis using due by blast
qed

lemma take_request_batch_empty:
  "batch (take_request got w) = [] \<longleftrightarrow> batch w = [] \<and> got = None"
  by (cases got) (simp_all add: take_request_def)

lemma run_iteration_cleared:
  "batch (take_request got w) \<noteq> [] \<Longrightarrow>
   batch (fst (run_iteration model wid got t w)) = [] \<longleftrightarrow> flush_due t (take_request got w)"
  by (simp add: run_iteration_cases split: sum.splits)

lemma run_iteration_last_process_time:
  "last_process_time (fst (run_iteration model wid got t w)) = last_process_time w
   \<or> (last_process_time (fst (run_iteration model wid got t w)) = t
      \<and> flush_due t (take_request got w))"
  by (simp add: run_iteration_cases split: sum.splits)

lemma fst_run_iterations_Cons:
  "fst (run_iterations model wid ((got, t) # ins) w)
     = fst (run_iterations model wid ins (fst (run_iteration model wid got t w)))"
  by (simp split: prod.splits)

lemma pending_since_inv:
  assumes "sorted (lb # map snd ins)"
    and "last_process_time w \<le> lb"
    and "batch w = [] \<longleftrightarrow> a = None"
    and "\<And>x. a = Some x \<Longrightarrow> last_process_time w \<le> x"
  shows "(batch (fst (run_iterations model wid ins w)) = []
            \<longleftrightarrow> pending_since model wid ins w a = None)
       \<and> (\<forall>x. pending_since model wid ins w a = Some x
            \<longrightarrow> last_process_time (fst (run_iterations model wid ins w)) \<le> x)"
  using assms
proof (induction ins arbitrary: lb w a)
  case Nil
  then show ?case by simp
next
  case (Cons i ins)
  obtain got t where i: "i = (got, t)" by (cases i)
  let ?w' = "fst (run_iteration model wid got t w)"
  let ?a' = "if flush_due t (take_request got w) then None
             else if batch w = [] \<and> got \<noteq> None then Some t else a"
  from Cons.prems(1) have lbt: "lb \<le> t" and srt: "sorted (t # map snd ins)"
    by (simp_all add: i)
  have lpt: "last_process_time ?w' \<le> t"
    using run_iteration_last_process_time[of model wid got t w] Cons.prems(2) lbt by auto
  have emp: "batch ?w' = [] \<longleftrightarrow> ?a' = None"
  proof (cases "flush_due t (take_request got w)")
    case True
    then show ?thesis by (simp add: run_iteration_cases split: sum.splits)
  next
    case False
    then show ?thesis
      using Cons.prems(3) by (auto simp add: run_iteration_cases take_request_batch_empty)
  qed
  have bnd: "\<And>x. ?a' = Some x \<Longrightarrow> last_process_time ?w' \<le> x"
  proof -
    fix x assume x: "?a' = Some x"
    then have nf: "\<not> flush_due t (take_request got w)" by (auto split: if_splits)
    then have eq: "last_process_time ?w' = last_process_time w"
      by (simp add: run_iteration_cases)
    show "last_process_time ?w' \<le> x"
    proof (cases "batch w = [] \<and> got \<noteq> None")
      case True
      with x nf have "x = t" by simp
      with eq Cons.prems(2) lbt show ?thesis by simp
    next
      case False
      with x nf have "a = Some x" by (simp split: if_splits)
      with Cons.prems(4) eq show ?thesis by simp
    qed
  qed
  from Cons.IH[OF srt lpt emp bnd]
  show ?case unfolding i fst_run_iterations_Cons pending_since.simps .
qed

text \<open>
  Claim C4, as the code has it. In every iteration from a reachable state, a non-empty
  batch is flushed (handed to \<open>predict\<close> and emptied) exactly when its size has reached
  32 or the clock reading of the iteration is more than 100ms after
  \<open>last_process_time\<close>, which is the start of the loop or the last successful flush,
  not the arrival of the batch's first member. A batch never has more than 32 members.
  When the clock readings do not decrease, \<open>last_process_time\<close> is not later than the
  reading at which the first member of the current batch arrived; so a batch is flushed
  at the latest in the first iteration whose reading is more than 100ms after that.
\<close>

theorem flush_when_full_or_stale:
  assumes w: "w = fst (run_iterations model wid ins (init_worker t0))"
    and mono: "sorted (t0 # map snd ins)"
  shows "(batch (take_request got w) \<noteq> [] \<longrightarrow>
            (batch (fst (run_iteration model wid got t w)) = []
               \<longleftrightarrow> length (batch (take_request got w)) \<ge> 32 \<or> t - last_process_time w > 1 / 10))
       \<and> length (batch (take_request got w)) \<le> 32
       \<and> (\<forall>a. pending_since model wid ins (init_worker t0) None = Some a \<longrightarrow>
            last_process_time w \<le> a
          \<and> (t - a > 1 / 10 \<longrightarrow> batch (fst (run_iteration model wid got t w)) = []))"
proof -
  let ?w1 = "take_request got w"
  have one: "batch ?w1 \<noteq> [] \<longrightarrow>
            (batch (fst (run_iteration model wid got t w)) = []
               \<longleftrightarrow> length (batch ?w1) \<ge> 32 \<or> t - last_process_time w > 1 / 10)"
    using run_iteration_cleared[of got w model wid t] by (auto simp add: flush_due_def)
  from reachable_take_request[OF w, of got t] have two: "length (batch ?w1) \<le> 32"
    by (auto simp add: holds_requests_def)
  have inv: "(batch w = [] \<longleftrightarrow> pending_since model wid ins (init_worker t0) None = None)
       \<and> (\<forall>x. pending_since model wid ins (init_worker t0) None = Some x
            \<longrightarrow> last_process_time w \<le> x)"
    unfolding w
    by (rule pending_since_inv[OF mono]) (simp_all add: init_worker_def)
  have three: "\<forall>a. pending_since model wid ins (init_worker t0) None = Some a \<longrightarrow>
            last_process_time w \<le> a
          \<and> (t - a > 1 / 10 \<longrightarrow> batch (fst (run_iteration model wid got t w)) = [])"
  proof (intro allI impI conjI)
    fix a assume a: "pending_since model wid ins (init_worker t0) None = Some a"
    with inv show le: "last_process_time w \<le> a" by blast
    assume "t - a > 1 / 10"
    with le have "t - last_process_time w > 1 / 10" by simp
    moreover from a inv have "batch w \<noteq> []" by simp
    then have ne: "batch ?w1 \<noteq> []" by (simp add: take_request_batch_empty)
    ultimately show "batch (fst (run_iteration model wid got t w)) = []"
      using one by blast
  qed
  from one two three show ?thesis by blast
qed

theorem flush_when_full_or_stale_witness:
  "sorted [0, 1 / 20 :: real]
   \<and> pending_since example_model 0 [(Some hello, 1 / 20)] (init_worker 0) None = Some (1 / 20)
   \<and> (1 / 5 :: real) - 1 / 20 > 1 / 10
   \<and> batch (take_request None (fst (run_iterations example_model 0 [(Some hello, 1 / 20)] (init_worker 0)))) \<noteq> []
   \<and> batch (fst (run_iteration example_model 0 None (1 / 5)
        (fst (run_iterations example_model 0 [(Some hello, 1 / 20)] (init_worker 0))))) = []"
proof -
  let ?ins = "[(Some hello, 1 / 20 :: real)]"
  let ?w = "fst (run_iterations example_model 0 ?ins (init_worker 0))"
  have w: "?w = fst (run_iterations example_model 0 ?ins (init_worker 0))" by simp
  have mono: "sorted (0 # map snd ?ins)" by simp
  have v: "?w = \<lparr>batch = [''Hello''], batch_ids = [7], last_process_time = 0\<rparr>"
    by (simp add: run_iteration_cases flush_due_def take_request_def init_worker_def hello_def)
  have p: "pending_since example_model 0 ?ins (init_worker 0) None = Some (1 / 20)"
    by (simp add: flush_due_def take_request_def init_worker_def hello_def)
  have ne: "batch (take_request None ?w) \<noteq> []" unfolding v by (simp add: take_request_def)
  have gt: "(1 / 5 :: real) - 1 / 20 > 1 / 10" by simp
  from flush_when_full_or_stale[OF w mono, of None "1 / 5"] p gt
  have "batch (fst (run_iteration example_model 0 None (1 / 5) ?w)) = []" by blast
  with p ne gt show ?thesis by simp
qed

text \<open>
  Claim C4 as stated fails: a worker started at clock reading 0 that dequeues its first
  request in an iteration with clock reading 1 flushes it in that same iteration, with
  one member and no time elapsed since the member arrived.
\<close>

theorem flush_before_first_member_is_stale:
  "run_iteration example_model 0 (Some hello) 1 (init_worker 0)
     = (init_worker 1, [Result 7 1 (7 / 10) 0])
   \<and> pending_since example_model 0 [] (init_worker 0) None = None
   \<and> \<not> spec_flush_due (length (batch (take_request (Some hello) (init_worker 0)))) 1 1"
  by (simp add: run_iteration_cases flush_due_def take_request_def init_worker_def hello_def
      predict_def example_model_def argmax_def spec_flush_due_def)

section \<open>Properties of the dispatcher\<close>

lemma floor_log2_bounds: "1 \<le> n \<Longrightarrow> 2 ^ floor_log2 n \<le> n \<and> n < 2 ^ Suc (floor_log2 n)"
proof (induction n rule: floor_log2.induct)
  case (1 n)
  show ?case
  proof (cases "n < 2")
    case True
    with "1.prems" have "n = 1" by simp
    then show ?thesis by (simp add: floor_log2.simps)
  next
    case False
    then have "1 \<le> n div 2" by simp
    from "1.IH"[OF False this]
    have a: "2 ^ floor_log2 (n div 2) \<le> n div 2" and b: "n div 2 < 2 ^ Suc (floor_log2 (n div 2))"
      by simp_all
    have f: "floor_log2 n = Suc (floor_log2 (n div 2))"
      using False by (subst floor_log2.simps) simp
    from a have "2 * 2 ^ floor_log2 (n div 2) \<le> n" by linarith
    moreover from b have "n < 2 * 2 ^ Suc (floor_log2 (n div 2))" by linarith
    ultimately show ?thesis unfolding f by simp
  qed
qed

lemma round_half_even_mono: "y \<le> z \<Longrightarrow> round_half_even y \<le> round_half_even z"
proof -
  assume yz: "y \<le> z"
  then have fl: "\<lfloor>y\<rfloor> \<le> \<lfloor>z\<rfloor>" by (rule floor_mono)
  show ?thesis
  proof (cases "\<lfloor>y\<rfloor> = \<lfloor>z\<rfloor>")
    case True
    with yz show ?thesis by (auto simp add: round_half_even_def Let_def)
  next
    case False
    with fl have "\<lfloor>y\<rfloor> + 1 \<le> \<lfloor>z\<rfloor>" by simp
    moreover have "round_half_even y \<le> \<lfloor>y\<rfloor> + 1" by (simp add: round_half_even_def Let_def)
    moreover have "\<lfloor>z\<rfloor> \<le> round_half_even z" by (simp add: round_half_even_def Let_def)
    ultimately show ?thesis by linarith
  qed
qed

lemma round_half_even_add_even:
  "even j \<Longrightarrow> round_half_even (y + of_int j) = round_half_even y + j"
  by (simp add: round_half_even_def Let_def)

lemma round_half_even_below_int: "round_half_even (of_int m - 1 / 4) = m"
proof -
  have "\<lfloor>of_int m - 1 / 4 :: real\<rfloor> = m - 1" by linarith
  then show ?thesis by (simp add: round_half_even_def Let_def)
qed

lemma round_half_even_upper: "of_int (round_half_even y) \<le> y + 1 / 2"
  unfolding round_half_even_def Let_def by (auto; linarith)

lemma round_half_even_of_int: "round_half_even (of_int m) = m"
  by (simp add: round_half_even_def Let_def)

lemma pow2_neg: "1 \<le> k \<Longrightarrow> pow2 (- int k) = 1 / 2 ^ k"
  by (simp add: pow2_def)

lemma round_binary64_normal:
  assumes "1 \<le> x" and "x < 2 ^ 52"
  shows "\<exists>k. 1 \<le> k \<and> k \<le> 52
           \<and> round_binary64 x = of_int (round_half_even (x * 2 ^ k)) / 2 ^ k
           \<and> 2 ^ (52 - k) \<le> x \<and> x < 2 * 2 ^ (52 - k)"
proof -
  let ?n = "nat \<lfloor>x\<rfloor>"
  let ?e = "floor_log2 ?n"
  from assms(1) have n1: "1 \<le> ?n" by linarith
  from floor_log2_bounds[OF n1] have lo: "2 ^ ?e \<le> ?n" and hi: "?n < 2 ^ Suc ?e" by simp_all
  from lo have "(2 :: real) ^ ?e \<le> real ?n" by (metis of_nat_le_iff of_nat_numeral of_nat_power)
  also have "real ?n \<le> x" using assms(1) by linarith
  finally have xlo: "(2 :: real) ^ ?e \<le> x" .
  from hi have "?n + 1 \<le> 2 ^ Suc ?e" by simp
  then have "real (?n + 1) \<le> 2 ^ Suc ?e" by (metis of_nat_le_iff of_nat_numeral of_nat_power)
  moreover have "x < real (?n + 1)" using assms(1) by simp linarith
  ultimately have xhi: "x < 2 * 2 ^ ?e" by simp
  from xlo assms(2) have "(2 :: real) ^ ?e < 2 ^ 52" by linarith
  then have e: "?e < 52" by (rule power_less_imp_less_exp[rotated]) simp
  let ?k = "52 - ?e"
  from e have k: "1 \<le> ?k" "?k \<le> 52" "52 - ?k = ?e" by simp_all
  have b: "binade \<bar>x\<bar> = int ?e" using assms(1) by (simp add: binade_def)
  have m: "max (binade \<bar>x\<bar>) (- 1022) - 52 = - int ?k"
    unfolding b using e by simp
  have "pow2 (- int ?k) = 1 / 2 ^ ?k" using k(1) by (rule pow2_neg)
  then have u: "pow2 (max (binade \<bar>x\<bar>) (- 1022) - 52) = 1 / 2 ^ ?k"
    by (simp only: m)
  have "round_binary64 x = of_int (round_half_even (x * 2 ^ ?k)) / 2 ^ ?k"
    using assms(1) unfolding round_binary64_def u by (simp add: Let_def)
  with k xlo xhi show ?thesis by (intro exI[of _ ?k]) simp
qed

lemma py_int_round_binary64:
  assumes "1 \<le> x" and "x < 2 ^ 52"
  shows "py_int (round_binary64 x) = \<lfloor>round_binary64 x\<rfloor>"
proof -
  from round_binary64_normal[OF assms] obtain k where
    r: "round_binary64 x = of_int (round_half_even (x * 2 ^ k)) / 2 ^ k" by blast
  have "0 \<le> x * 2 ^ k" using assms(1) by simp
  then have "round_half_even 0 \<le> round_half_even (x * 2 ^ k)" by (rule round_half_even_mono)
  then have "0 \<le> round_half_even (x * 2 ^ k)" by (simp add: round_half_even_def)
  then have "0 \<le> round_binary64 x" unfolding r by simp
  then show ?thesis by (simp add: py_int_def)
qed

lemma floor_round_binary64_step:
  assumes p1: "1 \<le> p1" and step: "p1 + 1 \<le> p2" and p2: "p2 < 2 ^ 52"
  shows "\<lfloor>round_binary64 p1\<rfloor> < \<lfloor>round_binary64 p2\<rfloor>"
proof -
  from p1 step p2 have p1': "p1 < 2 ^ 52" and p2': "1 \<le> p2" by simp_all
  from round_binary64_normal[OF p1 p1'] obtain k1 where
    k1: "1 \<le> k1" "k1 \<le> 52" and r1: "round_binary64 p1 = of_int (round_half_even (p1 * 2 ^ k1)) / 2 ^ k1"
    and lo1: "2 ^ (52 - k1) \<le> p1" and hi1: "p1 < 2 * 2 ^ (52 - k1)" by blast
  from round_binary64_normal[OF p2' p2] obtain k2 where
    k2: "1 \<le> k2" "k2 \<le> 52" and r2: "round_binary64 p2 = of_int (round_half_even (p2 * 2 ^ k2)) / 2 ^ k2"
    and lo2: "2 ^ (52 - k2) \<le> p2" and hi2: "p2 < 2 * 2 ^ (52 - k2)" by blast
  define n where "n = \<lfloor>round_binary64 p1\<rfloor>"
  have k21: "k2 \<le> k1"
  proof (rule ccontr)
    assume "\<not> k2 \<le> k1"
    then have "Suc (52 - k2) \<le> 52 - k1" using k2(2) by simp
    then have "(2 :: real) ^ Suc (52 - k2) \<le> 2 ^ (52 - k1)" by (rule power_increasing) simp
    with hi2 lo1 step show False by simp
  qed
  have n1: "(of_int n :: real) * 2 ^ k1 \<le> of_int (round_half_even (p1 * 2 ^ k1))"
  proof -
    have "of_int n \<le> round_binary64 p1" by (simp add: n_def)
    then have "of_int n \<le> of_int (round_half_even (p1 * 2 ^ k1)) / (2 :: real) ^ k1"
      by (simp only: r1)
    then show ?thesis by (simp add: field_simps)
  qed
  have goal: "of_int (n + 1) \<le> round_binary64 p2"
  proof (cases "k2 = k1")
    case True
    have ev: "even ((2 :: int) ^ k1)" using k1(1) by simp
    have "(p1 + 1) * 2 ^ k1 \<le> p2 * 2 ^ k1"
      using step by (intro mult_right_mono) simp_all
    then have "p1 * 2 ^ k1 + of_int (2 ^ k1) \<le> p2 * 2 ^ k1"
      by (simp add: algebra_simps)
    from round_half_even_mono[OF this]
    have "round_half_even (p1 * 2 ^ k1) + 2 ^ k1 \<le> round_half_even (p2 * 2 ^ k1)"
      by (simp only: round_half_even_add_even[OF ev])
    then have "of_int (round_half_even (p1 * 2 ^ k1)) + 2 ^ k1 \<le> (of_int (round_half_even (p2 * 2 ^ k1)) :: real)"
      by (metis of_int_add of_int_le_iff of_int_numeral of_int_power)
    with n1 have "of_int n * 2 ^ k1 + 2 ^ k1 \<le> (of_int (round_half_even (p2 * 2 ^ k1)) :: real)"
      by linarith
    then show ?thesis unfolding r2 True by (simp add: field_simps)
  next
    case False
    with k21 have lt: "Suc k2 \<le> k1" by simp
    from n1 round_half_even_upper[of "p1 * 2 ^ k1"]
    have "of_int n * 2 ^ k1 \<le> p1 * 2 ^ k1 + 1 / 2" by linarith
    then have a: "of_int n \<le> p1 + 1 / (2 * 2 ^ k1)" by (simp add: field_simps)
    have "(2 :: real) ^ Suc k2 \<le> 2 ^ k1" using lt by (rule power_increasing) simp
    then have c4: "(2 :: real) ^ k2 / (2 * 2 ^ k1) \<le> 1 / 4" by (simp add: field_simps)
    from a step have c1: "of_int n + 1 - 1 / (2 * 2 ^ k1) \<le> p2" by linarith
    have c2: "(of_int n + 1 - 1 / (2 * 2 ^ k1)) * 2 ^ k2 \<le> p2 * 2 ^ k2"
      using c1 by (intro mult_right_mono) simp_all
    have c3: "(of_int n + 1 - 1 / (2 * 2 ^ k1)) * 2 ^ k2
        = of_int ((n + 1) * 2 ^ k2) - (2 :: real) ^ k2 / (2 * 2 ^ k1)"
      by (simp add: algebra_simps)
    from c2 c3 c4 have "of_int ((n + 1) * 2 ^ k2) - 1 / 4 \<le> p2 * 2 ^ k2"
      by linarith
    from round_half_even_mono[OF this]
    have "(n + 1) * 2 ^ k2 \<le> round_half_even (p2 * 2 ^ k2)"
      by (simp only: round_half_even_below_int)
    then have "(of_int ((n + 1) * 2 ^ k2) :: real) \<le> of_int (round_half_even (p2 * 2 ^ k2))"
      by (simp only: of_int_le_iff)
    then show ?thesis unfolding r2 by (simp add: field_simps)
  qed
  then have "n + 1 \<le> \<lfloor>round_binary64 p2\<rfloor>" by (simp only: le_floor_iff)
  then show ?thesis by (simp add: n_def)
qed

lemma new_request_id_step:
  assumes "1 / 1000000 \<le> t1" and "t1 + 1 / 1000000 \<le> t2" and "t2 < 2 ^ 52 / 1000000"
  shows "new_request_id t1 < new_request_id t2"
proof -
  from assms have a: "1 \<le> t1 * 1000000" and b: "t1 * 1000000 + 1 \<le> t2 * 1000000"
    and c: "t2 * 1000000 < 2 ^ 52" by (simp_all add: field_simps)
  from a b c have a': "t1 * 1000000 < 2 ^ 52" and c': "1 \<le> t2 * 1000000" by simp_all
  from floor_round_binary64_step[OF a b c] show ?thesis
    unfolding new_request_id_def py_int_round_binary64[OF a a'] py_int_round_binary64[OF c' c] .
qed

lemma new_request_id_at_1: "new_request_id 1 = 1000000"
  by (simp add: new_request_id_def py_int_def round_binary64_def binade_def pow2_def
      round_half_even_def Let_def floor_log2.simps)

lemma new_request_id_example: "new_request_id (14098000001 / 8) = 1762250000125000"
  by (simp add: new_request_id_def py_int_def round_binary64_def binade_def pow2_def
      round_half_even_def Let_def floor_log2.simps)

text \<open>
  Claim C5, as the code has it. The id of a call is computed from the clock value read
  at line 166 alone, so two calls that read the same clock value get the same id. For
  clock readings from one microsecond up to \<open>2 ^ 52\<close> microseconds after the epoch, two
  calls whose readings are at least one microsecond apart get different ids, the later
  reading the greater id.
\<close>

theorem request_ids_by_clock_reading:
  "(t1 = t2 \<longrightarrow>
      request_id (snd (classify_submit s1 u1 t1)) = request_id (snd (classify_submit s2 u2 t2)))
   \<and> (1 / 1000000 \<le> t1 \<and> t1 + 1 / 1000000 \<le> t2 \<and> t2 < 2 ^ 52 / 1000000 \<longrightarrow>
      request_id (snd (classify_submit s1 u1 t1)) < request_id (snd (classify_submit s2 u2 t2)))"
proof -
  have "1 / 1000000 \<le> t1 \<and> t1 + 1 / 1000000 \<le> t2 \<and> t2 < 2 ^ 52 / 1000000 \<longrightarrow>
      new_request_id t1 < new_request_id t2"
    using new_request_id_step[of t1 t2] by blast
  then show ?thesis by (simp add: classify_submit_def Let_def)
qed

theorem request_ids_by_clock_reading_witness:
  "(1 / 1000000 :: real) \<le> 14098000001 / 8
   \<and> (14098000001 / 8 :: real) + 1 / 1000000 \<le> 7049000001 / 4
   \<and> (7049000001 / 4 :: real) < 2 ^ 52 / 1000000
   \<and> request_id (snd (classify_submit ''a'' 1 (14098000001 / 8))) = 1762250000125000
   \<and> request_id (snd (classify_submit ''a'' 1 (14098000001 / 8)))
       < request_id (snd (classify_submit ''b'' 1 (7049000001 / 4)))
   \<and> request_id (snd (classify_submit ''a'' 1 (14098000001 / 8)))
       = request_id (snd (classify_submit ''b'' 2 (14098000001 / 8)))"
proof -
  have a: "(1 / 1000000 :: real) \<le> 14098000001 / 8" by simp
  have b: "(14098000001 / 8 :: real) + 1 / 1000000 \<le> 7049000001 / 4" by simp
  have c: "(7049000001 / 4 :: real) < 2 ^ 52 / 1000000" by simp
  have v: "request_id (snd (classify_submit ''a'' 1 (14098000001 / 8))) = 1762250000125000"
    by (simp add: classify_submit_def Let_def new_request_id_example)
  from request_ids_by_clock_reading[of "14098000001 / 8" "7049000001 / 4" "''a''" 1 "''b''" 1]
    a b c
  have lt: "request_id (snd (classify_submit ''a'' 1 (14098000001 / 8)))
       < request_id (snd (classify_submit ''b'' 1 (7049000001 / 4)))" by blast
  from request_ids_by_clock_reading[of "14098000001 / 8" "14098000001 / 8" "''a''" 1 "''b''" 2]
  have eq: "request_id (snd (classify_submit ''a'' 1 (14098000001 / 8)))
       = request_id (snd (classify_submit ''b'' 2 (14098000001 / 8)))" by blast
  from a b c v lt eq show ?thesis by blast
qed

text \<open>
  Claim C5 as stated fails: two calls with different sentences that read the adjacent
  float clock values \<open>1762250000.125\<close> and \<open>1762250000.125 + 2 ^ -22\<close> at line 166 build
  requests with the same \<open>request_id\<close>.
\<close>

theorem request_ids_collide_at_adjacent_readings:
  "(14098000001 / 8 :: real) \<noteq> 7391412224524289 / 4194304
   \<and> sentence (snd (classify_submit ''first'' 1 (14098000001 / 8)))
       \<noteq> sentence (snd (classify_submit ''second'' 1 (7391412224524289 / 4194304)))
   \<and> request_id (snd (classify_submit ''first'' 1 (14098000001 / 8)))
       = request_id (snd (classify_submit ''second'' 1 (7391412224524289 / 4194304)))"
  by (simp add: classify_submit_def Let_def new_request_id_def py_int_def round_binary64_def
      binade_def pow2_def round_half_even_def floor_log2.simps)

section \<open>Properties of the route\<close>

lemma strip_prefix_Some: "strip_prefix p s = Some r \<longleftrightarrow> s = p @ r"
  by (induction p s rule: strip_prefix.induct) auto

text \<open>
  Claim C7, as the code has it. A \<open>GET\<close> request reaches \<open>classify\<close> with the argument
  \<open>s\<close> exactly when its (URL-decoded) path is \<open>/bert/classify/\<close> followed by \<open>s\<close>, where
  \<open>s\<close> is not empty and has no slash.
\<close>

theorem classify_route_is_bert_classify:
  "route_classify path = Some s
     \<longleftrightarrow> path = ''/bert/classify/'' @ s \<and> s \<noteq> [] \<and> CHR ''/'' \<notin> set s"
proof (cases "strip_prefix classify_rule_prefix path")
  case None
  then have "\<And>r. path \<noteq> classify_rule_prefix @ r"
    using strip_prefix_Some[of classify_rule_prefix path] by auto
  with None show ?thesis
    by (auto simp add: route_classify_def classify_rule_prefix_def)
next
  case (Some seg)
  then have "path = classify_rule_prefix @ seg" by (simp add: strip_prefix_Some)
  with Some show ?thesis
    by (auto simp add: route_classify_def string_converter_def classify_rule_prefix_def)
qed

theorem classify_route_is_bert_classify_witness:
  "route_classify ''/bert/classify/Hello'' = Some ''Hello''"
  using classify_route_is_bert_classify[of "''/bert/classify/Hello''" "''Hello''"] by simp

text \<open>
  Claim C7 as stated fails: the path \<open>/classify/Hello\<close>, which the route of the
  specification maps to the sentence \<open>Hello\<close>, matches no rule of the code.
\<close>

theorem classify_route_is_not_slash_classify:
  "spec_route_classify ''/classify/Hello'' = Some ''Hello''
   \<and> route_classify ''/classify/Hello'' = None"
  by (simp add: spec_route_classify_def route_classify_def string_converter_def
      classify_rule_prefix_def)

section \<open>Properties of the class labels\<close>

text \<open>
  Claim C10. The label of class index 0 is \<open>none\<close>, of 1 \<open>product\<close>, of 2 \<open>series\<close>,
  and of every other index \<open>none\<close>; so the label is always one of the three. When the
  polling loop receives a prediction with the id of its own request within the wait
  budget, it returns status 200 with this label as \<open>class\<close>, its own sentence, and the
  confidence and worker id of the prediction.
\<close>

theorem class_index_maps_to_label:
  "predicted_label 0 = ''none'' \<and> predicted_label 1 = ''product'' \<and> predicted_label 2 = ''series''
   \<and> (c \<notin> {0, 1, 2} \<longrightarrow> predicted_label c = ''none'')
   \<and> predicted_label c \<in> {''none'', ''product'', ''series''}
   \<and> (poll_time ev - start_time d < 30 \<and> delivered ev = Some (Result rid c conf wid)
        \<and> rid = request_id (request_data d) \<longrightarrow>
      classify_poll d ev =
        (Return (ClassBody (predicted_label c) (sentence (request_data d)) conf
                   (py_round (reply_time ev - start_time d) 4) wid, 200), []))"
  by (auto simp add: predicted_label_def class_mapping_def classify_poll_def)

theorem class_index_maps_to_label_witness:
  "(5 :: int) \<notin> {0, 1, 2} \<and> predicted_label 5 = ''none''
   \<and> classify_poll \<lparr>start_time = 0, request_data = hello\<rparr>
        \<lparr>poll_time = 1, delivered = Some (Result 7 5 (9 / 10) 1), reply_time = 2\<rparr>
      = (Return (ClassBody ''none'' ''Hello'' (9 / 10) 2 1, 200), [])"
proof -
  have a: "(5 :: int) \<notin> {0, 1, 2}" by simp
  have r: "py_round (2 - 0) 4 = 2" by (simp add: py_round_def Let_def)
  from class_index_maps_to_label[of 5
      "\<lparr>poll_time = 1, delivered = Some (Result 7 5 (9 / 10) 1), reply_time = 2\<rparr>"
      "\<lparr>start_time = 0, request_data = hello\<rparr>" 7 "9 / 10" 1] a r
  show ?thesis by (simp add: hello_def)
qed

section \<open>Properties of the polling loop\<close>

lemma classify_poll_cases:
  "classify_poll d ev =
     (if poll_time ev - start_time d < 30 then
        (case delivered ev of
           None \<Rightarrow> (Continue, [])
         | Some r \<Rightarrow>
             if resp_request_id r = request_id (request_data d)
             then (Return (reply_to d r (reply_time ev)), [])
             else (Continue, [r]))
      else (Return (ErrorBody ''Request timeout'', 408), []))"
  by (simp add: classify_poll_def reply_to_def split: option.splits response.splits)

lemma classify_loop_returns:
  "\<exists>ev\<in>set evs. 30 \<le> poll_time ev - start_time d \<Longrightarrow> \<exists>x. classify_loop d evs = Some x"
proof (induction evs)
  case Nil
  then show ?case by simp
next
  case (Cons ev evs)
  show ?case
  proof (cases "fst (classify_poll d ev)")
    case (Return reply)
    then show ?thesis by (cases "classify_poll d ev") simp
  next
    case Continue
    then have "poll_time ev - start_time d < 30"
      by (simp add: classify_poll_cases split: if_splits)
    with Cons.prems have "\<exists>ev\<in>set evs. 30 \<le> poll_time ev - start_time d" by auto
    from Cons.IH[OF this] obtain x where "classify_loop d evs = Some x" by blast
    with Continue show ?thesis by (cases "classify_poll d ev") (auto split: prod.splits)
  qed
qed

lemma reply_to_status: "snd (reply_to d r t) = (if is_error r then 500 else 200)"
  by (cases r) (simp_all add: reply_to_def)

lemma classify_loop_result:
  assumes "classify_loop d evs = Some (reply, puts)"
  shows "((reply = (ErrorBody ''Request timeout'', 408)
            \<and> (\<exists>ev\<in>set evs. 30 \<le> poll_time ev - start_time d))
          \<or> (\<exists>ev\<in>set evs. \<exists>r. poll_time ev - start_time d < 30 \<and> delivered ev = Some r
                \<and> resp_request_id r = request_id (request_data d)
                \<and> reply = reply_to d r (reply_time ev)))
       \<and> (\<forall>p\<in>set puts. resp_request_id p \<noteq> request_id (request_data d))"
  using assms
proof (induction evs arbitrary: puts)
  case Nil
  then show ?case by simp
next
  case (Cons ev evs)
  show ?case
  proof (cases "fst (classify_poll d ev)")
    case (Return rep)
    with Cons.prems have eq: "classify_poll d ev = (Return reply, puts)"
      by (cases "classify_poll d ev") auto
    then show ?thesis
      by (auto simp add: classify_poll_cases split: if_splits option.splits)
  next
    case Continue
    then obtain ps where ps: "classify_poll d ev = (Continue, ps)"
      by (cases "classify_poll d ev") auto
    with Cons.prems obtain ps' where rest: "classify_loop d evs = Some (reply, ps')"
      and puts: "puts = ps @ ps'"
      by (auto split: option.splits)
    from ps have "\<forall>p\<in>set ps. resp_request_id p \<noteq> request_id (request_data d)"
      by (auto simp add: classify_poll_cases split: if_splits option.splits)
    with Cons.IH[OF rest] puts show ?thesis by auto
  qed
qed

text \<open>
  Claim C1. A call of \<open>classify\<close> puts one request on the request queue, with the id
  generated at line 166. Whatever the response queue delivers to its polls, if the call
  returns then either it returns the timeout reply (status 408), and then a clock reading
  of the loop condition was at least 30 seconds after \<open>start_time\<close>; or it returns the
  reply built from a response that one of its own polls received within the budget and
  whose \<open>request_id\<close> equals the id of the call, with status 500 for an error response
  and 200 for a prediction. Every response it puts back has another id. And the call
  does return once a clock reading of the loop condition is 30 seconds or more after
  \<open>start_time\<close>.
\<close>

theorem classify_returns_own_result_or_times_out:
  "fst (classify s t_start t_id evs) = \<lparr>request_id = new_request_id t_id, sentence = s\<rparr>
   \<and> (\<forall>reply puts. snd (classify s t_start t_id evs) = Some (reply, puts) \<longrightarrow>
         ((reply = (ErrorBody ''Request timeout'', 408)
             \<and> (\<exists>ev\<in>set evs. 30 \<le> poll_time ev - t_start))
          \<or> (\<exists>ev\<in>set evs. \<exists>r. poll_time ev - t_start < 30 \<and> delivered ev = Some r
                \<and> resp_request_id r = new_request_id t_id
                \<and> reply = reply_to (fst (classify_submit s t_start t_id)) r (reply_time ev)
                \<and> snd reply = (if is_error r then 500 else 200)))
       \<and> (\<forall>p\<in>set puts. resp_request_id p \<noteq> new_request_id t_id))
   \<and> ((\<exists>ev\<in>set evs. 30 \<le> poll_time ev - t_start) \<longrightarrow>
         (\<exists>reply puts. snd (classify s t_start t_id evs) = Some (reply, puts)))"
proof -
  let ?d = "fst (classify_submit s t_start t_id)"
  have d: "?d = \<lparr>start_time = t_start,
                request_data = \<lparr>request_id = new_request_id t_id, sentence = s\<rparr>\<rparr>"
    by (simp add: classify_submit_def Let_def)
  have c: "classify s t_start t_id evs
      = (\<lparr>request_id = new_request_id t_id, sentence = s\<rparr>, classify_loop ?d evs)"
    by (simp add: classify_def classify_submit_def Let_def)
  have one: "\<forall>reply puts. snd (classify s t_start t_id evs) = Some (reply, puts) \<longrightarrow>
         ((reply = (ErrorBody ''Request timeout'', 408)
             \<and> (\<exists>ev\<in>set evs. 30 \<le> poll_time ev - t_start))
          \<or> (\<exists>ev\<in>set evs. \<exists>r. poll_time ev - t_start < 30 \<and> delivered ev = Some r
                \<and> resp_request_id r = new_request_id t_id
                \<and> reply = reply_to ?d r (reply_time ev)
                \<and> snd reply = (if is_error r then 500 else 200)))
       \<and> (\<forall>p\<in>set puts. resp_request_id p \<noteq> new_request_id t_id)"
  proof (intro allI impI)
    fix reply puts
    assume "snd (classify s t_start t_id evs) = Some (reply, puts)"
    then have "classify_loop ?d evs = Some (reply, puts)" by (simp add: c)
    from classify_loop_result[OF this]
    have A: "(reply = (ErrorBody ''Request timeout'', 408)
             \<and> (\<exists>ev\<in>set evs. 30 \<le> poll_time ev - t_start))
          \<or> (\<exists>ev\<in>set evs. \<exists>r. poll_time ev - t_start < 30 \<and> delivered ev = Some r
                \<and> resp_request_id r = new_request_id t_id
                \<and> reply = reply_to ?d r (reply_time ev))"
      and B: "\<forall>p\<in>set puts. resp_request_id p \<noteq> new_request_id t_id"
      unfolding d by simp_all
    from A have "(reply = (ErrorBody ''Request timeout'', 408)
             \<and> (\<exists>ev\<in>set evs. 30 \<le> poll_time ev - t_start))
          \<or> (\<exists>ev\<in>set evs. \<exists>r. poll_time ev - t_start < 30 \<and> delivered ev = Some r
                \<and> resp_request_id r = new_request_id t_id
                \<and> reply = reply_to ?d r (reply_time ev)
                \<and> snd reply = (if is_error r then 500 else 200))"
      using reply_to_status[of ?d] by blast
    with B show "((reply = (ErrorBody ''Request timeout'', 408)
             \<and> (\<exists>ev\<in>set evs. 30 \<le> poll_time ev - t_start))
          \<or> (\<exists>ev\<in>set evs. \<exists>r. poll_time ev - t_start < 30 \<and> delivered ev = Some r
                \<and> resp_request_id r = new_request_id t_id
                \<and> reply = reply_to ?d r (reply_time ev)
                \<and> snd reply = (if is_error r then 500 else 200)))
       \<and> (\<forall>p\<in>set puts. resp_request_id p \<noteq> new_request_id t_id)"
      by blast
  qed
  have two: "(\<exists>ev\<in>set evs. 30 \<le> poll_time ev - t_start) \<longrightarrow>
         (\<exists>reply puts. snd (classify s t_start t_id evs) = Some (reply, puts))"
  proof
    assume "\<exists>ev\<in>set evs. 30 \<le> poll_time ev - t_start"
    then have "\<exists>ev\<in>set evs. 30 \<le> poll_time ev - start_time ?d" by (simp add: d)
    from classify_loop_returns[OF this] show
      "\<exists>reply puts. snd (classify s t_start t_id evs) = Some (reply, puts)"
      by (simp add: c)
  qed
  from c one two show ?thesis by simp
qed

theorem classify_returns_own_result_or_times_out_witness:
  "(\<exists>ev\<in>set [\<lparr>poll_time = 1, delivered = Some (Result 99 0 (1 / 2) 1), reply_time = 1\<rparr>,
                 \<lparr>poll_time = 2, delivered = Some (Result 1000000 1 (7 / 10) 0), reply_time = 3\<rparr>,
                 \<lparr>poll_time = 31, delivered = None, reply_time = 31\<rparr>].
      30 \<le> poll_time ev - 1)
   \<and> classify ''Hello'' 1 1
        [\<lparr>poll_time = 1, delivered = Some (Result 99 0 (1 / 2) 1), reply_time = 1\<rparr>,
         \<lparr>poll_time = 2, delivered = Some (Result 1000000 1 (7 / 10) 0), reply_time = 3\<rparr>,
         \<lparr>poll_time = 31, delivered = None, reply_time = 31\<rparr>]
      = (\<lparr>request_id = 1000000, sentence = ''Hello''\<rparr>,
         Some ((ClassBody ''product'' ''Hello'' (7 / 10) 2 0, 200), [Result 99 0 (1 / 2) 1]))
   \<and> resp_request_id (Result 99 0 (1 / 2) 1) \<noteq> new_request_id 1"
proof -
  let ?evs = "[\<lparr>poll_time = 1, delivered = Some (Result 99 0 (1 / 2) 1), reply_time = 1\<rparr>,
               \<lparr>poll_time = 2, delivered = Some (Result 1000000 1 (7 / 10) 0), reply_time = 3\<rparr>,
               \<lparr>poll_time = 31, delivered = None, reply_time = 31 :: real\<rparr>]"
  have h: "\<exists>ev\<in>set ?evs. 30 \<le> poll_time ev - 1" by simp
  have r: "py_round (3 - 1) 4 = 2" by (simp add: py_round_def Let_def)
  have i: "new_request_id 1 = 1000000" by (rule new_request_id_at_1)
  have v: "snd (classify ''Hello'' 1 1 ?evs)
       = Some ((ClassBody ''product'' ''Hello'' (7 / 10) 2 0, 200), [Result 99 0 (1 / 2) 1])"
    using r i
    by (simp add: classify_def classify_submit_def Let_def classify_poll_def predicted_label_def
        class_mapping_def)
  note T = classify_returns_own_result_or_times_out[of "''Hello''" 1 1 ?evs]
  from T have f: "fst (classify ''Hello'' 1 1 ?evs)
      = \<lparr>request_id = new_request_id 1, sentence = ''Hello''\<rparr>" by (rule conjunct1)
  from T v have "\<forall>p\<in>set [Result 99 0 (1 / 2) 1]. resp_request_id p \<noteq> new_request_id 1"
    by blast
  then have m: "resp_request_id (Result 99 0 (1 / 2) 1) \<noteq> new_request_id 1" by simp
  have "classify ''Hello'' 1 1 ?evs
      = (fst (classify ''Hello'' 1 1 ?evs), snd (classify ''Hello'' 1 1 ?evs))" by simp
  then have "classify ''Hello'' 1 1 ?evs
      = (\<lparr>request_id = 1000000, sentence = ''Hello''\<rparr>,
         Some ((ClassBody ''product'' ''Hello'' (7 / 10) 2 0, 200), [Result 99 0 (1 / 2) 1]))"
    unfolding f v i .
  with h m show ?thesis by blast
qed

section \<open>Properties of the shared state\<close>

text \<open>
  Claim C6. When a poll within the wait budget receives a response whose \<open>request_id\<close>
  is not the id of the handler's own request, the handler puts exactly this response
  back, unchanged, and continues polling. On the shared state: the response moves from
  the head of the response queue to its tail, the request queue is untouched, and the
  handler is still polling for the same request.
\<close>

theorem mismatched_response_is_put_back:
  assumes mism: "resp_request_id r \<noteq> request_id (request_data d)"
    and budget: "now - start_time d < 30"
    and h: "handlers c i = Some (Polling d)"
    and q: "response_queue (shared c) = r # rest"
  shows "classify_poll d \<lparr>poll_time = now, delivered = Some r, reply_time = t_end\<rparr>
           = (Continue, [r])
       \<and> response_queue (shared (exec model (Poll i now t_end) c)) = rest @ [r]
       \<and> request_queue (shared (exec model (Poll i now t_end) c)) = request_queue (shared c)
       \<and> handlers (exec model (Poll i now t_end) c) = handlers c"
proof -
  have p: "classify_poll d \<lparr>poll_time = now, delivered = Some r, reply_time = t_end\<rparr>
           = (Continue, [r])"
    using mism budget by (simp add: classify_poll_cases)
  have "(handlers c)(i := Some (Polling d)) = handlers c"
    using h by (simp add: fun_upd_idem)
  with p h q budget show ?thesis by (simp add: queue_get_def)
qed

theorem mismatched_response_is_put_back_witness:
  "resp_request_id (Result 99 0 (1 / 2) 1) \<noteq> request_id (request_data \<lparr>start_time = 0, request_data = hello\<rparr>)
   \<and> (1 :: real) - start_time \<lparr>start_time = 0, request_data = hello\<rparr> < 30
   \<and> response_queue (shared (exec example_model (Poll 0 1 1)
        \<lparr>shared = \<lparr>request_queue = [], response_queue = [Result 99 0 (1 / 2) 1, Result 7 1 (7 / 10) 0],
                    worker_counter = 0\<rparr>,
         handlers = (\<lambda>i. None)(0 := Some (Polling \<lparr>start_time = 0, request_data = hello\<rparr>)),
         workers = (\<lambda>j. init_worker 0)\<rparr>))
      = [Result 7 1 (7 / 10) 0, Result 99 0 (1 / 2) 1]"
proof -
  let ?d = "\<lparr>start_time = 0, request_data = hello\<rparr>"
  let ?c = "\<lparr>shared = \<lparr>request_queue = [], response_queue = [Result 99 0 (1 / 2) 1, Result 7 1 (7 / 10) 0],
                    worker_counter = 0\<rparr>,
         handlers = (\<lambda>i. None)(0 := Some (Polling ?d)),
         workers = (\<lambda>j. init_worker 0)\<rparr>"
  have mism: "resp_request_id (Result 99 0 (1 / 2) 1) \<noteq> request_id (request_data ?d)"
    by (simp add: hello_def)
  have budget: "(1 :: real) - start_time ?d < 30" by simp
  have h: "handlers ?c 0 = Some (Polling ?d)" by simp
  have q: "response_queue (shared ?c) = Result 99 0 (1 / 2) 1 # [Result 7 1 (7 / 10) 0]" by simp
  from mismatched_response_is_put_back[OF mism budget h q, of 1 example_model] mism budget
  show ?thesis by simp
qed

lemma exec_worker_counter: "worker_counter (shared (exec model a c)) = worker_counter (shared c)"
  by (cases a) (auto simp add: queue_get_def split: option.splits handler_status.splits prod.splits)

lemma run_schedule_worker_counter:
  "worker_counter (shared (run_schedule model sch c)) = worker_counter (shared c)"
  by (induction sch arbitrary: c) (simp_all add: exec_worker_counter)

text \<open>
  Claim C8. No step of a handler or of a worker changes \<open>worker_counter\<close>: along every
  schedule it keeps its value, which is 0 from the initial configuration. A submitted
  request is appended to the one shared request queue, whatever the counter is and
  whether or not \<open>get_next_worker\<close> has been called; the request at the head of that queue
  is taken by whichever worker iterates next. \<open>get_next_worker\<close> itself, which no step
  calls, advances the counter by one modulo 4 and returns the new value, between 0 and 3.
\<close>

theorem request_handling_never_touches_worker_counter:
  "worker_counter (shared (run_schedule model sch c)) = worker_counter (shared c)
   \<and> worker_counter (shared (run_schedule model sch (init_config t0))) = 0
   \<and> (handlers c i = None \<longrightarrow>
        request_queue (shared (exec model (Submit i s t_start t_id) c))
          = request_queue (shared c) @ [\<lparr>request_id = new_request_id t_id, sentence = s\<rparr>]
      \<and> request_queue (shared (exec model (Submit i s t_start t_id)
            (c\<lparr>shared := snd (get_next_worker (shared c))\<rparr>)))
          = request_queue (shared c) @ [\<lparr>request_id = new_request_id t_id, sentence = s\<rparr>])
   \<and> (request_queue (shared c) = req # reqs \<longrightarrow>
        request_queue (shared (exec model (Work j now) c)) = reqs
      \<and> fst (run_iteration model (int j) (Some req) now (workers c j))
          = workers (exec model (Work j now) c) j)
   \<and> get_next_worker sy
        = ((worker_counter sy + 1) mod 4, sy\<lparr>worker_counter := (worker_counter sy + 1) mod 4\<rparr>)
   \<and> 0 \<le> fst (get_next_worker sy) \<and> fst (get_next_worker sy) < 4"
proof -
  have a: "worker_counter (shared (run_schedule model sch (init_config t0))) = 0"
    by (simp add: run_schedule_worker_counter init_config_def)
  have b: "handlers c i = None \<longrightarrow>
        request_queue (shared (exec model (Submit i s t_start t_id) c))
          = request_queue (shared c) @ [\<lparr>request_id = new_request_id t_id, sentence = s\<rparr>]
      \<and> request_queue (shared (exec model (Submit i s t_start t_id)
            (c\<lparr>shared := snd (get_next_worker (shared c))\<rparr>)))
          = request_queue (shared c) @ [\<lparr>request_id = new_request_id t_id, sentence = s\<rparr>]"
    by (simp add: classify_submit_def Let_def get_next_worker_def)
  have d: "request_queue (shared c) = req # reqs \<longrightarrow>
        request_queue (shared (exec model (Work j now) c)) = reqs
      \<and> fst (run_iteration model (int j) (Some req) now (workers c j))
          = workers (exec model (Work j now) c) j"
    by (simp add: queue_get_def split: prod.splits)
  have e: "get_next_worker sy
        = ((worker_counter sy + 1) mod 4, sy\<lparr>worker_counter := (worker_counter sy + 1) mod 4\<rparr>)"
    by (simp add: get_next_worker_def Let_def)
  have f: "0 \<le> fst (get_next_worker sy) \<and> fst (get_next_worker sy) < 4"
    by (simp add: e)
  from run_schedule_worker_counter[of model sch c] a b d e f show ?thesis by blast
qed

theorem request_handling_never_touches_worker_counter_witness:
  "handlers (init_config 0) 0 = None
   \<and> request_queue (shared (exec example_model (Submit 0 ''Hello'' 1 1) (init_config 0)))
       = [\<lparr>request_id = 1000000, sentence = ''Hello''\<rparr>]
   \<and> request_queue (shared (exec example_model (Work 1 2)
        (exec example_model (Submit 0 ''Hello'' 1 1) (init_config 0)))) = []
   \<and> worker_counter (shared (run_schedule example_model
        [Submit 0 ''Hello'' 1 1, Work 1 2, Poll 0 3 4] (init_config 0))) = 0"
proof -
  let ?c1 = "exec example_model (Submit 0 ''Hello'' 1 1) (init_config 0)"
  let ?sch = "[Submit 0 ''Hello'' 1 1, Work 1 2, Poll 0 3 4]"
  have h: "handlers (init_config 0) 0 = None" by (simp add: init_config_def)
  have i: "new_request_id 1 = 1000000" by (rule new_request_id_at_1)
  note T = request_handling_never_touches_worker_counter[of example_model ?sch "init_config 0"
      0 0 "''Hello''" 1 1]
  from T have z: "worker_counter (shared (run_schedule example_model ?sch (init_config 0))) = 0"
    by blast
  from T h have s0: "request_queue (shared ?c1)
      = request_queue (shared (init_config 0)) @ [\<lparr>request_id = new_request_id 1, sentence = ''Hello''\<rparr>]"
    by blast
  have s: "request_queue (shared ?c1) = [\<lparr>request_id = 1000000, sentence = ''Hello''\<rparr>]"
    unfolding s0 i by (simp add: init_config_def)
  from request_handling_never_touches_worker_counter[of example_model "[]" ?c1 0 0 "''x''" 0 0
      "\<lparr>request_id = 1000000, sentence = ''Hello''\<rparr>" "[]" 1 2] s
  have w: "request_queue (shared (exec example_model (Work 1 2) ?c1)) = []" by blast
  from h s z w show ?thesis by blast
qed

end
